theory Spec2Isabelle
  imports Complex_Main
begin

section \<open>The adaptable file downloader of bauh (bauh/view/core/downloader.py)\<close>

text \<open>
  The development embeds \<^verbatim>\<open>AdaptableFileDownloader\<close>. Everything the class asks of the
  host (the PATH lookup, the file system, the external processes, the HTTP client, the
  translations) is a parameter of the model; the decisions the class takes itself are
  translated line by line. Line numbers are those of \<^verbatim>\<open>downloader.py\<close>.
\<close>

subsection \<open>Exceptions\<close>

text \<open>
  The exceptions the model distinguishes: \<^verbatim>\<open>OSError\<close> is the only one the source names
  in a handler; the others are caught by its bare \<^verbatim>\<open>except:\<close> alone.
\<close>

datatype error = OSError | AttributeError | OverflowError | OtherError

subsection \<open>The instance and the host\<close>

text \<open>
  The fields \<^verbatim>\<open>__init__\<close> stores and the methods read. \<^verbatim>\<open>multithread_client\<close> may be
  \<^verbatim>\<open>None\<close>. The logger, the translations and the HTTP client are parameters of the
  functions that use them.
\<close>

record downloader =
  multithread_enabled :: bool
  multithread_client :: "string option"
  check_ssl :: bool

text \<open>\<^verbatim>\<open>self.supported_multithread_clients = ['aria2', 'axel']\<close>\<close>

definition supported_multithread_clients :: "string list" where
  "supported_multithread_clients = [''aria2'', ''axel'']"

text \<open>
  \<^verbatim>\<open>shutil.which(name)\<close>: the path of the executable, or \<^verbatim>\<open>None\<close>. The host is the
  function that answers the lookup.
\<close>

type_synonym which = "string \<Rightarrow> string option"

text \<open>\<^verbatim>\<open>bool(x)\<close> for an optional string: \<^verbatim>\<open>None\<close> and the empty string are false.\<close>

definition bool_str :: "string option \<Rightarrow> bool" where
  "bool_str x = (case x of None \<Rightarrow> False | Some s \<Rightarrow> s \<noteq> [])"

definition is_aria2c_available :: "which \<Rightarrow> bool" where
  "is_aria2c_available wh = bool_str (wh ''aria2c'')"

definition is_axel_available :: "which \<Rightarrow> bool" where
  "is_axel_available wh = bool_str (wh ''axel'')"

definition is_wget_available :: "which \<Rightarrow> bool" where
  "is_wget_available wh = bool_str (wh ''wget'')"

definition is_multithreaded_client_available :: "which \<Rightarrow> string \<Rightarrow> bool" where
  "is_multithreaded_client_available wh name =
     (if name = ''aria2'' then is_aria2c_available wh
      else if name = ''axel'' then is_axel_available wh
      else False)"

definition list_available_multithreaded_clients :: "which \<Rightarrow> string list" where
  "list_available_multithreaded_clients wh =
     filter (is_multithreaded_client_available wh) supported_multithread_clients"

subsection \<open>Backend resolution\<close>

text \<open>
  \<^verbatim>\<open>possible_clients = {*self.supported_multithread_clients}\<close> is a Python set, and
  \<^verbatim>\<open>for client in possible_clients\<close> visits its elements in an order the language does
  not fix (string hashes are salted per process). The order is the parameter \<open>it\<close>: the
  list in which a set is visited. \<open>set_iteration it\<close> says that \<open>it\<close> visits every
  element of a set of supported clients once.
\<close>

type_synonym set_order = "string set \<Rightarrow> string list"

definition set_iteration :: "set_order \<Rightarrow> bool" where
  "set_iteration it =
     list_all (\<lambda>c. set (it (set supported_multithread_clients - {c}))
                      = set supported_multithread_clients - {c}
                  \<and> distinct (it (set supported_multithread_clients - {c})))
       supported_multithread_clients"

text \<open>
  \<^verbatim>\<open>get_available_multithreaded_tool\<close>. A \<^verbatim>\<open>for\<close> loop that returns the first client
  found available is \<open>find\<close>; falling off the end of the method returns \<^verbatim>\<open>None\<close>.
\<close>

definition get_available_multithreaded_tool ::
  "set_order \<Rightarrow> downloader \<Rightarrow> which \<Rightarrow> string option" where
  "get_available_multithreaded_tool it self wh =
     (if multithread_enabled self then
        (case multithread_client self of
           None \<Rightarrow> find (is_multithreaded_client_available wh) supported_multithread_clients
         | Some c \<Rightarrow>
             if c \<notin> set supported_multithread_clients then
               find (is_multithreaded_client_available wh) supported_multithread_clients
             else if is_multithreaded_client_available wh c then Some c
             else find (is_multithreaded_client_available wh)
                    (it (set supported_multithread_clients - {c})))
      else None)"

text \<open>One order a set can be visited in: the order of the list it was built from.\<close>

definition insertion_order :: set_order where
  "insertion_order S = filter (\<lambda>c. c \<in> S) supported_multithread_clients"

definition is_multithreaded :: "set_order \<Rightarrow> downloader \<Rightarrow> which \<Rightarrow> bool" where
  "is_multithreaded it self wh = bool_str (get_available_multithreaded_tool it self wh)"

definition can_work :: "set_order \<Rightarrow> downloader \<Rightarrow> which \<Rightarrow> bool" where
  "can_work it self wh = (is_wget_available wh \<or> is_multithreaded it self wh)"

text \<open>
  The resolution policy as the specification words it (section 4.1): a catalog in fixed
  priority order, a preference checked first, and the remaining candidates scanned in
  catalog order.
\<close>

definition catalog :: "string list" where
  "catalog = [''aria2'', ''axel'']"

definition resolve :: "string option \<Rightarrow> bool \<Rightarrow> (string \<Rightarrow> bool) \<Rightarrow> string option" where
  "resolve preferred enabled available =
     (if \<not> enabled then None
      else case preferred of
             None \<Rightarrow> find available catalog
           | Some p \<Rightarrow>
               if p \<notin> set catalog then find available catalog
               else if available p then Some p
               else find available (removeAll p catalog))"

subsection \<open>Thread count\<close>

text \<open>
  \<^verbatim>\<open>known_size / 1000000\<close> is Python's true division of two integers: the correctly
  rounded double, or \<^verbatim>\<open>OverflowError\<close> when the quotient rounds to \<open>2 ^ 1024\<close> or more in
  magnitude. The division is reached only for a size below 16000000 other than 0. For
  \<open>0 < s < 16000000\<close> the double lies within \<open>2 ^ - 49\<close> of the quotient and the quotient
  is at least \<open>10 ^ - 6\<close> below the next integer, so \<^verbatim>\<open>floor\<close> gives \<open>s div 1000000\<close>. For
  \<open>s < 0\<close> both \<^verbatim>\<open>floor\<close> of the double and \<open>s div 1000000\<close> are at most \<open>- 1\<close>, and the
  source replaces either by 1.
\<close>

definition float_overflow_bound :: int where
  "float_overflow_bound = (2 ^ 1024 - 2 ^ 970) * 1000000"

definition get_appropriate_threads_number :: "int option \<Rightarrow> int option \<Rightarrow> error + int" where
  "get_appropriate_threads_number max_threads known_size =
     (let by_size =
        (case known_size of
           Some s \<Rightarrow>
             if s \<noteq> 0 then
               (if s \<ge> 16000000 then Inr 16
                else if s \<le> - float_overflow_bound then Inl OverflowError
                else (let threads = s div 1000000
                      in if threads \<le> 0 then Inr 1 else Inr threads))
             else Inr 16
         | None \<Rightarrow> Inr 16)
      in case max_threads of
           Some m \<Rightarrow> if m \<noteq> 0 \<and> m > 0 then Inr m else by_size
         | None \<Rightarrow> by_size)"

section \<open>The download call\<close>

subsection \<open>String operations of Python\<close>

text \<open>
  A character of the model is a code point below 256 of a Python string. \<^verbatim>\<open>s.split(c)\<close>
  never returns the empty list, so its last element \<^verbatim>\<open>[-1]\<close> exists.
\<close>

fun split_on :: "char \<Rightarrow> string \<Rightarrow> string list" where
  "split_on c [] = [[]]"
| "split_on c (x # xs) =
     (if x = c then [] # split_on c xs
      else (case split_on c xs of
              [] \<Rightarrow> [[x]]
            | w # ws \<Rightarrow> (x # w) # ws))"

fun join_with :: "char \<Rightarrow> string list \<Rightarrow> string" where
  "join_with c [] = []"
| "join_with c [w] = w"
| "join_with c (w # ws) = w @ c # join_with c ws"

text \<open>\<^verbatim>\<open>str(n)\<close> for an integer: the decimal digits, with a minus sign when negative.\<close>

fun digits :: "nat \<Rightarrow> string" where
  "digits n =
     (if n < 10 then [''0123456789'' ! n]
      else digits (n div 10) @ [''0123456789'' ! (n mod 10)])"

definition str_int :: "int \<Rightarrow> string" where
  "str_int i = (if i < 0 then CHR ''-'' # digits (nat (- i)) else digits (nat i))"

text \<open>
  \<^verbatim>\<open>os.path.dirname\<close> (posixpath): the part up to the last slash, with trailing slashes
  removed unless it consists of slashes only.
\<close>

definition dirname :: "string \<Rightarrow> string" where
  "dirname p =
     (let head = rev (dropWhile (\<lambda>c. c \<noteq> CHR ''/'') (rev p))
      in if head \<noteq> [] \<and> \<not> list_all (\<lambda>c. c = CHR ''/'') head
         then rev (dropWhile (\<lambda>c. c = CHR ''/'') (rev head))
         else head)"

text \<open>
  \<^verbatim>\<open>RE_HAS_EXTENSION = re.compile(r'.+\.\w+$')\<close> with \<^verbatim>\<open>match\<close>: at least one character
  other than a newline, a dot, and word characters up to the end of the string or up to a
  final newline. A word character is not a dot, so the dot is the last one of the string.
  For a string pattern \<^verbatim>\<open>\w\<close> is the underscore and every code point that Unicode counts
  as alphanumeric; below 256 these are the digits and letters of ASCII and the code
  points \<open>0xAA\<close>, \<open>0xB2\<close>, \<open>0xB3\<close>, \<open>0xB5\<close>, \<open>0xB9\<close>, \<open>0xBA\<close>, \<open>0xBC\<close> to \<open>0xBE\<close>,
  \<open>0xC0\<close> to \<open>0xD6\<close>, \<open>0xD8\<close> to \<open>0xF6\<close> and \<open>0xF8\<close> to \<open>0xFF\<close>.
\<close>

definition is_word_char :: "char \<Rightarrow> bool" where
  "is_word_char c \<longleftrightarrow>
     (let n = (of_char c :: nat) in
      (0x30 \<le> n \<and> n \<le> 0x39) \<or> (0x41 \<le> n \<and> n \<le> 0x5A) \<or> n = 0x5F
      \<or> (0x61 \<le> n \<and> n \<le> 0x7A) \<or> n = 0xAA \<or> n = 0xB2 \<or> n = 0xB3 \<or> n = 0xB5
      \<or> n = 0xB9 \<or> n = 0xBA \<or> (0xBC \<le> n \<and> n \<le> 0xBE) \<or> (0xC0 \<le> n \<and> n \<le> 0xD6)
      \<or> (0xD8 \<le> n \<and> n \<le> 0xF6) \<or> (0xF8 \<le> n \<and> n \<le> 0xFF))"

definition has_extension_to_end :: "string \<Rightarrow> bool" where
  "has_extension_to_end s =
     (let r = rev s in
      takeWhile is_word_char r \<noteq> [] \<and>
      (case dropWhile is_word_char r of
         [] \<Rightarrow> False
       | c # pre \<Rightarrow> c = CHR ''.'' \<and> pre \<noteq> [] \<and> CHR 0x0A \<notin> set pre))"

definition RE_HAS_EXTENSION_match :: "string \<Rightarrow> bool" where
  "RE_HAS_EXTENSION_match s \<longleftrightarrow>
     has_extension_to_end s \<or>
     (s \<noteq> [] \<and> last s = CHR 0x0A \<and> has_extension_to_end (butlast s))"

subsection \<open>Requests, processes and what a call does\<close>

text \<open>
  The arguments of \<^verbatim>\<open>download\<close>. \<open>watcher\<close> says whether a watcher object is passed
  (the source tests \<^verbatim>\<open>if watcher:\<close>); optional strings and integers are \<^verbatim>\<open>None\<close> by default.
\<close>

record request =
  file_url :: string
  watcher :: bool
  output_path :: "string option"
  cwd :: "string option"
  root_password :: "string option"
  substatus_prefix :: "string option"
  display_file_size :: bool
  max_threads :: "int option"
  known_size :: "int option"

text \<open>
  Modelled from the spec: \<^verbatim>\<open>SimpleProcess\<close>, a class of \<^verbatim>\<open>bauh.commons.system\<close> that this
  module imports. Section 4.4 of the specification describes what a builder returns as an
  invocation descriptor (argv, working directory, elevation credential) made without
  input or output; \<^verbatim>\<open>handle_simple\<close> launches and supervises it. \<open>p_cwd = None\<close> stands
  for the default of the constructor.
\<close>

record process =
  p_cmd :: "string list"
  p_cwd :: "string option"
  p_root_password :: "string option"

text \<open>
  \<^verbatim>\<open>time.time()\<close> returns a float, and every float is a real number: a reading of the
  clock is a \<open>real\<close>.
\<close>

type_synonym timestamp = real

text \<open>
  What a call does to the outside, in the order it does it. Log messages are kept by
  their kind and arguments. \<open>Took name ti tf\<close> is the message
  \<^verbatim>\<open>f'{file_name} download took {(tf - ti) / 60:.2f} minutes'\<close> of line 201: it keeps the two
  readings of the clock the figure is computed from, not the rounded quotient.
\<close>

datatype log_msg =
    Downloading string
  | Removing_old string
  | Old_removed string
  | Mkdir_failed string
  | Took string timestamp timestamp
  | Could_not_download string
  | Removing_downloaded string

datatype event =
    Log_info log_msg
  | Log_error log_msg
  | Os_remove string bool
  | Mkdir string
  | Watcher_print string
  | Change_substatus string
  | Thread_start string string
  | Handle_simple process
  | Print_exc
  | Time_time timestamp

text \<open>
  The state a call runs in: the paths that exist, the events so far, and the local
  variable \<^verbatim>\<open>ti\<close> of \<^verbatim>\<open>download\<close>, the start of the interval that line 201 logs.
\<close>

record world =
  files :: "string set"
  trace :: "event list"
  ti :: timestamp

definition emit :: "event \<Rightarrow> world \<Rightarrow> world" where
  "emit e w = w\<lparr>trace := trace w @ [e]\<rparr>"

text \<open>
  What \<^verbatim>\<open>http_client.get_content_length\<close> does: it raises, or it returns a value of which
  the source uses the truth value (\<^verbatim>\<open>if size:\<close>) and the text (\<^verbatim>\<open>f' ( {size} )'\<close>).
\<close>

datatype content_length = Probe_raised error | Probe_returned bool string

text \<open>
  The environment of a call: the answers of the host and of the collaborators this
  module imports (\<^verbatim>\<open>ProcessHandler\<close>, \<^verbatim>\<open>HttpClient\<close>, \<^verbatim>\<open>I18n\<close>, \<^verbatim>\<open>bold\<close>,
  \<^verbatim>\<open>get_human_size_str\<close>).
  \<^item> \<open>path_lookup\<close> is \<^verbatim>\<open>shutil.which\<close>, \<open>set_iter\<close> the order in which Python visits a set;
  \<^item> \<open>os_remove p\<close> is the exception \<^verbatim>\<open>os.remove(p)\<close> raises, if any;
  \<^item> \<open>mkdir d fs\<close> is the exception of \<^verbatim>\<open>Path(d).mkdir(exist_ok=True, parents=True)\<close> or
    the paths that exist afterwards;
  \<^item> \<open>handle_simple pr w\<close> is the outcome of launching and supervising \<open>pr\<close> in the state
    \<open>w\<close>: an exception or the success flag, and the paths that exist afterwards;
  \<^item> \<open>time_time w\<close> is what \<^verbatim>\<open>time.time()\<close> returns when it is called in the state \<open>w\<close>;
  \<^item> \<open>i18n\<close>, \<open>bold\<close>, \<open>get_human_size_str\<close> produce display text, and \<open>format_dir t d\<close> is
    \<^verbatim>\<open>t.format(dir=d)\<close>.
\<close>

record env =
  path_lookup :: which
  set_iter :: set_order
  os_remove :: "string \<Rightarrow> error option"
  mkdir :: "string \<Rightarrow> string set \<Rightarrow> error + string set"
  handle_simple :: "process \<Rightarrow> world \<Rightarrow> (error + bool) \<times> string set"
  time_time :: "world \<Rightarrow> timestamp"
  get_content_length :: "string \<Rightarrow> content_length"
  i18n :: "string \<Rightarrow> string"
  bold :: "string \<Rightarrow> string"
  get_human_size_str :: "int \<Rightarrow> string"
  format_dir :: "string \<Rightarrow> string \<Rightarrow> string"

text \<open>\<^verbatim>\<open>ti = time.time()\<close>: the clock is read and the reading assigned to \<^verbatim>\<open>ti\<close>.\<close>

definition read_ti :: "env \<Rightarrow> world \<Rightarrow> world" where
  "read_ti ev w = (let t = time_time ev w in (emit (Time_time t) w)\<lparr>ti := t\<rparr>)"

text \<open>The truth value of an optional string, and its value where it is true.\<close>

definition str_or :: "string option \<Rightarrow> string \<Rightarrow> string" where
  "str_or x d = (case x of None \<Rightarrow> d | Some s \<Rightarrow> if s \<noteq> [] then s else d)"

subsection \<open>The command builders\<close>

definition get_aria2c_process ::
  "string \<Rightarrow> string option \<Rightarrow> string \<Rightarrow> string option \<Rightarrow> int \<Rightarrow> process" where
  "get_aria2c_process url out dir root_pw threads =
     \<lparr>p_cmd =
        [''aria2c'', url, ''--no-conf'', ''-x'', ''16'', ''--enable-color=false'',
         ''--stderr=true'', ''--summary-interval=0'', ''--disable-ipv6'', ''-k'', ''1M'',
         ''--allow-overwrite=true'', ''-c'', ''-t'', ''5'', ''--max-file-not-found=3'',
         ''--file-allocation=none'', ''--console-log-level=error'']
        @ (if threads > 1 then [''-s'', str_int threads] else [])
        @ (if bool_str out then
             (let output_split = split_on CHR ''/'' (str_or out [])
              in [''-d'', join_with CHR ''/'' (butlast output_split),
                  ''-o'', last output_split])
           else []),
      p_cwd = Some dir, p_root_password = root_pw\<rparr>"

definition get_axel_process ::
  "downloader \<Rightarrow> string \<Rightarrow> string option \<Rightarrow> string \<Rightarrow> string option \<Rightarrow> int \<Rightarrow> process"
  where
  "get_axel_process self url out dir root_pw threads =
     \<lparr>p_cmd =
        [''axel'', url, ''-n'', str_int threads, ''-4'', ''-c'', ''-T'', ''5'']
        @ (if \<not> check_ssl self then [''-k''] else [])
        @ (if bool_str out then [''--output='' @ str_or out []] else []),
      p_cwd = Some dir, p_root_password = root_pw\<rparr>"

definition get_wget_process ::
  "downloader \<Rightarrow> string \<Rightarrow> string option \<Rightarrow> string \<Rightarrow> string option \<Rightarrow> process" where
  "get_wget_process self url out dir root_pw =
     \<lparr>p_cmd =
        [''wget'', url, ''-c'', ''--retry-connrefused'', ''-t'', ''10'', ''--no-config'', ''-nc'']
        @ (if \<not> check_ssl self then [''--no-check-certificate''] else [])
        @ (if bool_str out then [''-O'', str_or out []] else []),
      p_cwd = Some dir, p_root_password = root_pw\<rparr>"

subsection \<open>Cleanup and the size probe\<close>

text \<open>
  \<^verbatim>\<open>final_cwd = cwd if cwd else '.'\<close>, \<^verbatim>\<open>file_name = file_url.split('/')[-1]\<close>, and the
  path \<^verbatim>\<open>_rm_bad_file\<close> deletes:
  \<^verbatim>\<open>to_delete = output_path if output_path else f'{cwd}/{file_name}'\<close>.
\<close>

definition final_cwd :: "request \<Rightarrow> string" where
  "final_cwd r = str_or (cwd r) ''.''"

definition file_name :: "request \<Rightarrow> string" where
  "file_name r = last (split_on CHR ''/'' (file_url r))"

definition to_delete :: "request \<Rightarrow> string" where
  "to_delete r = str_or (output_path r) (final_cwd r @ ''/'' @ file_name r)"

definition rm_process :: "string \<Rightarrow> string option \<Rightarrow> process" where
  "rm_process path root_pw =
     \<lparr>p_cmd = [''rm'', ''-rf'', path], p_cwd = None, p_root_password = root_pw\<rparr>"

text \<open>
  \<^verbatim>\<open>_rm_bad_file\<close>: if the path exists, \<^verbatim>\<open>rm -rf\<close> is run through \<^verbatim>\<open>handle_simple\<close> and its
  success flag returned; otherwise the method returns \<^verbatim>\<open>None\<close>. An exception of
  \<^verbatim>\<open>handle_simple\<close> is not caught here.
\<close>

definition rm_bad_file :: "env \<Rightarrow> request \<Rightarrow> world \<Rightarrow> (error + bool option) \<times> world" where
  "rm_bad_file ev r w =
     (if to_delete r \<noteq> [] \<and> to_delete r \<in> files w then
        (let w1 = emit (Log_info (Removing_downloaded (to_delete r))) w;
             pr = rm_process (to_delete r) (root_password r);
             w2 = emit (Handle_simple pr) w1
         in case handle_simple ev pr w2 of
              (Inl e, fs) \<Rightarrow> (Inl e, w2\<lparr>files := fs\<rparr>)
            | (Inr success, fs) \<Rightarrow> (Inr (Some success), w2\<lparr>files := fs\<rparr>))
      else (Inr None, w))"

text \<open>
  \<^verbatim>\<open>_concat_file_size\<close>, the target of the thread: the placeholder is shown, then the
  length is asked for inside \<^verbatim>\<open>try: ... except: pass\<close>. The result is what the method
  raises or returns, and the substatus texts it shows.
\<close>

definition concat_file_size :: "env \<Rightarrow> string \<Rightarrow> string \<Rightarrow> (error + unit) \<times> event list" where
  "concat_file_size ev url base =
     (let body =
        (case get_content_length ev url of
           Probe_raised e \<Rightarrow> (Inl e, [])
         | Probe_returned truthy text \<Rightarrow>
             (Inr (),
              if truthy then [Change_substatus (base @ '' ( '' @ text @ '' )'')] else []))
      in (case fst body of Inl e \<Rightarrow> Inr () | Inr u \<Rightarrow> Inr u,
          Change_substatus (base @ '' ( ? Mb )'') # snd body))"

subsection \<open>The body of the try block\<close>

text \<open>
  How the \<^verbatim>\<open>try\<close> block ends: with a \<^verbatim>\<open>return\<close> statement, with an exception, or at its
  last statement with the value of \<^verbatim>\<open>success\<close>.
\<close>

datatype outcome = Returned bool | Raised error | Completed bool

text \<open>
  Lines 143 to 156: an old file at the output path is removed; otherwise the directory of
  the output path is created. \<open>None\<close> means that the block goes on. Without a watcher,
  \<^verbatim>\<open>watcher.print\<close> raises \<^verbatim>\<open>AttributeError\<close> inside the handler of \<^verbatim>\<open>OSError\<close>.
\<close>

definition prepare_output :: "env \<Rightarrow> request \<Rightarrow> world \<Rightarrow> outcome option \<times> world" where
  "prepare_output ev r w =
     (if bool_str (output_path r) then
        (let out = str_or (output_path r) [] in
         if out \<in> files w then
           (let w1 = emit (Log_info (Removing_old out)) w in
            case os_remove ev out of
              Some e \<Rightarrow> (Some (Raised e), emit (Os_remove out False) w1)
            | None \<Rightarrow>
                (None, emit (Log_info (Old_removed out))
                         (emit (Os_remove out True) (w1\<lparr>files := files w1 - {out}\<rparr>))))
         else
           (let output_dir = dirname out;
                w1 = emit (Mkdir output_dir) w
            in case mkdir ev output_dir (files w) of
                 Inr fs \<Rightarrow> (None, w1\<lparr>files := fs\<rparr>)
               | Inl e \<Rightarrow>
                   if e = OSError then
                     (let w2 = emit (Log_error (Mkdir_failed output_dir)) w1 in
                      if watcher r then
                        (Some (Returned False),
                         emit (Watcher_print
                                 (format_dir ev (i18n ev ''error.mkdir'') output_dir)) w2)
                      else (Some (Raised AttributeError), w2))
                   else (Some (Raised e), w1)))
      else (None, w))"

text \<open>Lines 158 to 173: the backend, the thread count and the process.\<close>

definition select_process :: "env \<Rightarrow> downloader \<Rightarrow> request \<Rightarrow> error + process \<times> string" where
  "select_process ev self r =
     (let client = get_available_multithreaded_tool (set_iter ev) self (path_lookup ev) in
      if bool_str client then
        (case get_appropriate_threads_number (max_threads r) (known_size r) of
           Inl e \<Rightarrow> Inl e
         | Inr threads \<Rightarrow>
             if client = Some ''aria2'' then
               Inr (get_aria2c_process (file_url r) (output_path r) (final_cwd r)
                      (root_password r) threads, ''aria2'')
             else
               Inr (get_axel_process self (file_url r) (output_path r) (final_cwd r)
                      (root_password r) threads, ''axel''))
      else
        Inr (get_wget_process self (file_url r) (output_path r) (final_cwd r)
               (root_password r), ''wget''))"

text \<open>Lines 175 to 178: the name shown to the watcher.\<close>

definition display_name :: "request \<Rightarrow> string" where
  "display_name r =
     (let name = last (split_on CHR ''/'' (file_url r)) in
      if bool_str (output_path r) \<and> \<not> RE_HAS_EXTENSION_match name
         \<and> RE_HAS_EXTENSION_match (str_or (output_path r) [])
      then last (split_on CHR ''/'' (str_or (output_path r) []))
      else name)"

text \<open>
  Lines 180 to 193: the substatus. The result is the state of the call and the events of
  the thread started for the size probe, which runs beside the call and is never joined.
\<close>

definition substatus_msg :: "env \<Rightarrow> request \<Rightarrow> string \<Rightarrow> string" where
  "substatus_msg ev r downloader =
     (if bool_str (substatus_prefix r) then str_or (substatus_prefix r) [] @ '' '' else [])
     @ bold ev (''['' @ downloader @ '']'') @ '' '' @ i18n ev ''downloading'' @ '' ''
     @ bold ev (display_name r)"

definition notify :: "env \<Rightarrow> request \<Rightarrow> string \<Rightarrow> world \<Rightarrow> world \<times> event list" where
  "notify ev r downloader w =
     (if watcher r then
        (let msg = substatus_msg ev r downloader in
         if display_file_size r then
           (case known_size r of
              Some k \<Rightarrow>
                if k \<noteq> 0 then
                  (emit (Change_substatus (msg @ '' ( '' @ get_human_size_str ev k @ '' )'')) w,
                   [])
                else (emit (Thread_start (file_url r) msg) w,
                      snd (concat_file_size ev (file_url r) msg))
            | None \<Rightarrow> (emit (Thread_start (file_url r) msg) w,
                       snd (concat_file_size ev (file_url r) msg)))
         else (emit (Change_substatus (msg @ '' ( ? Mb )'')) w, []))
      else (w, []))"

text \<open>
  Lines 158 to 195: the backend and the thread count are chosen, \<^verbatim>\<open>ti\<close> is read again
  (lines 163, 167, 171) immediately before the process is built, and the process is
  announced, launched and supervised.
\<close>

definition launch :: "env \<Rightarrow> downloader \<Rightarrow> request \<Rightarrow> world \<Rightarrow> outcome \<times> world \<times> event list"
  where
  "launch ev self r w =
     (case select_process ev self r of
        Inl e \<Rightarrow> (Raised e, w, [])
      | Inr (pr, downloader) \<Rightarrow>
          (let (w1, thread) = notify ev r downloader (read_ti ev w);
               w2 = emit (Handle_simple pr) w1
           in case handle_simple ev pr w2 of
                (Inl e, fs) \<Rightarrow> (Raised e, w2\<lparr>files := fs\<rparr>, thread)
              | (Inr success, fs) \<Rightarrow> (Completed success, w2\<lparr>files := fs\<rparr>, thread)))"

definition download_try ::
  "env \<Rightarrow> downloader \<Rightarrow> request \<Rightarrow> world \<Rightarrow> outcome \<times> world \<times> event list" where
  "download_try ev self r w =
     (case prepare_output ev r w of
        (Some oc, w1) \<Rightarrow> (oc, w1, [])
      | (None, w1) \<Rightarrow> launch ev self r w1)"

subsection \<open>The call\<close>

text \<open>
  Lines 200 to 207, after the \<^verbatim>\<open>try\<close> statement: \<^verbatim>\<open>tf = time.time()\<close>, the interval from
  \<^verbatim>\<open>ti\<close> to \<^verbatim>\<open>tf\<close> is logged, and a failed download is cleaned up.
\<close>

definition finish ::
  "env \<Rightarrow> request \<Rightarrow> bool \<Rightarrow> world \<Rightarrow> event list \<Rightarrow> (error + bool) \<times> world \<times> event list"
  where
  "finish ev r success w thread =
     (let tf = time_time ev w;
          w1 = emit (Log_info (Took (file_name r) (ti w) tf)) (emit (Time_time tf) w)
      in
      if \<not> success then
        (case rm_bad_file ev r (emit (Log_error (Could_not_download (file_name r))) w1) of
           (Inl e, w2) \<Rightarrow> (Inl e, w2, thread)
         | (Inr u, w2) \<Rightarrow> (Inr success, w2, thread))
      else (Inr success, w1, thread))"

text \<open>
  Lines 134 to 141, before the \<^verbatim>\<open>try\<close> statement: the call is logged and \<^verbatim>\<open>ti\<close> is read
  for the first time; \<open>start_time\<close> is that reading. Before it \<^verbatim>\<open>ti\<close> has no value, for
  which 0 stands.
\<close>

definition start_time :: "env \<Rightarrow> request \<Rightarrow> string set \<Rightarrow> timestamp" where
  "start_time ev r fs =
     time_time ev (emit (Log_info (Downloading (file_url r))) \<lparr>files = fs, trace = [], ti = 0\<rparr>)"

definition initial_world :: "env \<Rightarrow> request \<Rightarrow> string set \<Rightarrow> world" where
  "initial_world ev r fs =
     read_ti ev (emit (Log_info (Downloading (file_url r))) \<lparr>files = fs, trace = [], ti = 0\<rparr>)"

text \<open>
  \<^verbatim>\<open>download\<close>, from the paths that exist when it is called: what the call raises or
  returns, the state it leaves, and the events of the probe thread. The handler of the
  bare \<^verbatim>\<open>except:\<close> prints the traceback and calls \<^verbatim>\<open>_rm_bad_file\<close>; what that call raises
  leaves \<^verbatim>\<open>download\<close>.
\<close>

definition download ::
  "env \<Rightarrow> downloader \<Rightarrow> request \<Rightarrow> string set \<Rightarrow> (error + bool) \<times> world \<times> event list"
  where
  "download ev self r fs =
     (let w0 = initial_world ev r fs
      in case download_try ev self r w0 of
           (Returned b, w1, thread) \<Rightarrow> (Inr b, w1, thread)
         | (Raised e, w1, thread) \<Rightarrow>
             (case rm_bad_file ev r (emit Print_exc w1) of
                (Inl e', w2) \<Rightarrow> (Inl e', w2, thread)
              | (Inr u, w2) \<Rightarrow> finish ev r False w2 thread)
         | (Completed success, w1, thread) \<Rightarrow> finish ev r success w1 thread)"

subsection \<open>Notions the properties are stated with\<close>

text \<open>The parts of the result of \<open>download\<close>.\<close>

definition result_of :: "(error + bool) \<times> world \<times> event list \<Rightarrow> error + bool" where
  "result_of x = fst x"

definition world_of :: "(error + bool) \<times> world \<times> event list \<Rightarrow> world" where
  "world_of x = fst (snd x)"

definition thread_of :: "(error + bool) \<times> world \<times> event list \<Rightarrow> event list" where
  "thread_of x = snd (snd x)"

text \<open>The cleanup command returns: \<^verbatim>\<open>handle_simple\<close> raises nothing for \<^verbatim>\<open>rm -rf\<close>.\<close>

definition cleanup_returns :: "env \<Rightarrow> bool" where
  "cleanup_returns ev \<longleftrightarrow>
     (\<forall>path pw w. \<exists>b fs. handle_simple ev (rm_process path pw) w = (Inr b, fs))"

text \<open>
  The directory of the output path cannot be created: an output path is given, nothing
  exists there, and \<^verbatim>\<open>mkdir\<close> raises \<^verbatim>\<open>OSError\<close>.
\<close>

definition mkdir_fails :: "env \<Rightarrow> request \<Rightarrow> string set \<Rightarrow> bool" where
  "mkdir_fails ev r fs \<longleftrightarrow>
     bool_str (output_path r) \<and> str_or (output_path r) [] \<notin> fs
     \<and> mkdir ev (dirname (str_or (output_path r) [])) fs = Inl OSError"

text \<open>
  The readings of the clock in a list of events, the intervals it logs (file name, start,
  end), and whether the \<^verbatim>\<open>try\<close> block gets as far as building a process: the output is
  prepared without \<^verbatim>\<open>return\<close> or exception and the thread count is computed.
\<close>

fun readings :: "event list \<Rightarrow> timestamp list" where
  "readings [] = []"
| "readings (Time_time t # es) = t # readings es"
| "readings (e # es) = readings es"

fun took_logs :: "event list \<Rightarrow> (string \<times> timestamp \<times> timestamp) list" where
  "took_logs [] = []"
| "took_logs (Log_info (Took n a b) # es) = (n, a, b) # took_logs es"
| "took_logs (e # es) = took_logs es"


text \<open>The texts a list of events shows as substatus, and whether a text occurs in another.\<close>

fun shown_texts :: "event list \<Rightarrow> string list" where
  "shown_texts [] = []"
| "shown_texts (Change_substatus t # es) = t # shown_texts es"
| "shown_texts (e # es) = shown_texts es"

fun starts_with :: "string \<Rightarrow> string \<Rightarrow> bool" where
  "starts_with [] t = True"
| "starts_with (c # cs) [] = False"
| "starts_with (c # cs) (d # ds) = (c = d \<and> starts_with cs ds)"

fun occurs_in :: "string \<Rightarrow> string \<Rightarrow> bool" where
  "occurs_in s [] = (s = [])"
| "occurs_in s (d # ds) = (starts_with s (d # ds) \<or> occurs_in s ds)"


text \<open>
  The probe threads a list of events starts (URL and base text of each), and the events
  of those threads: what \<^verbatim>\<open>_concat_file_size\<close> shows for each of them.
\<close>

fun thread_starts :: "event list \<Rightarrow> (string \<times> string) list" where
  "thread_starts [] = []"
| "thread_starts (Thread_start u b # es) = (u, b) # thread_starts es"
| "thread_starts (e # es) = thread_starts es"

definition probe_events :: "env \<Rightarrow> event list \<Rightarrow> event list" where
  "probe_events ev tr =
     concat (map (\<lambda>(u, b). snd (concat_file_size ev u b)) (thread_starts tr))"

subsection \<open>Concrete hosts, environments and requests\<close>

text \<open>Hosts on which a single executable is installed, and a second visiting order.\<close>

definition host_only_aria2c :: which where
  "host_only_aria2c name = (if name = ''aria2c'' then Some ''/usr/bin/aria2c'' else None)"

definition host_only_axel :: which where
  "host_only_axel name = (if name = ''axel'' then Some ''/usr/bin/axel'' else None)"

definition reversed_order :: set_order where
  "reversed_order S = rev (insertion_order S)"

text \<open>
  An environment in which nothing is installed but wget, every operation succeeds, the
  clock shows the number of events so far and the size probe raises; and variations of
  it: the directory cannot be created; the backend fails and leaves a partial file that
  \<^verbatim>\<open>rm\<close> cannot delete; the same with \<^verbatim>\<open>handle_simple\<close> raising for \<^verbatim>\<open>rm\<close>; \<^verbatim>\<open>os.remove\<close>
  raising and \<^verbatim>\<open>rm\<close> failing to delete.
\<close>

definition quiet_env :: env where
  "quiet_env =
     \<lparr>path_lookup = (\<lambda>name. if name = ''wget'' then Some ''/usr/bin/wget'' else None),
      set_iter = insertion_order,
      os_remove = (\<lambda>p. None),
      mkdir = (\<lambda>d fs. Inr fs),
      handle_simple = (\<lambda>pr w. (Inr True, files w)),
      time_time = (\<lambda>w. of_nat (length (trace w))),
      get_content_length = (\<lambda>u. Probe_raised OtherError),
      i18n = (\<lambda>k. k),
      bold = (\<lambda>t. t),
      get_human_size_str = str_int,
      format_dir = (\<lambda>t d. t @ '': '' @ d)\<rparr>"

definition env_no_directory :: env where
  "env_no_directory = quiet_env\<lparr>mkdir := (\<lambda>d fs. Inl OSError)\<rparr>"

definition env_failing_backend :: env where
  "env_failing_backend =
     quiet_env\<lparr>handle_simple :=
       (\<lambda>pr w. if p_cwd pr = None then (Inr False, files w)
               else (Inr False, insert ''/tmp/f.iso'' (files w)))\<rparr>"

definition env_cleanup_raises :: env where
  "env_cleanup_raises =
     quiet_env\<lparr>handle_simple :=
       (\<lambda>pr w. if p_cwd pr = None then (Inl OSError, files w)
               else (Inr False, insert ''/tmp/f.iso'' (files w)))\<rparr>"

definition env_remove_raises :: env where
  "env_remove_raises =
     quiet_env\<lparr>os_remove := (\<lambda>p. Some OSError),
               handle_simple := (\<lambda>pr w. (Inr False, files w))\<rparr>"

definition plain_downloader :: downloader where
  "plain_downloader =
     \<lparr>multithread_enabled = False, multithread_client = None, check_ssl = True\<rparr>"

definition request_iso :: request where
  "request_iso =
     \<lparr>file_url = ''http://host/f.iso'', watcher = True, output_path = Some ''/tmp/f.iso'',
      cwd = None, root_password = None, substatus_prefix = None, display_file_size = True,
      max_threads = None, known_size = None\<rparr>"

section \<open>Backend resolution and thread count: the properties\<close>

subsection \<open>Auxiliary facts\<close>

lemma float_overflow_bound_pos: "0 < float_overflow_bound"
proof -
  have "(2::int) ^ 970 < 2 ^ 1024" by (rule power_strict_increasing) simp_all
  then show ?thesis unfolding float_overflow_bound_def by simp
qed

lemma distinct_singleton_set: "distinct xs \<Longrightarrow> set xs = {a} \<Longrightarrow> xs = [a]"
proof (cases xs)
  case Nil
  assume "set xs = {a}" with Nil show ?thesis by simp
next
  case (Cons y ys)
  assume d: "distinct xs" and s: "set xs = {a}"
  from s Cons have y: "y = a" by auto
  from s Cons have "set ys \<subseteq> {a}" by auto
  moreover from d Cons y have "a \<notin> set ys" by simp
  ultimately have "ys = []" by (cases ys) auto
  with y Cons show ?thesis by simp
qed

lemma clients_without_axel: "{''aria2'', ''axel''} - {''axel''} = {''aria2''}"
  by auto

lemma clients_without_aria2: "{''aria2'', ''axel''} - {''aria2''} = {''axel''}"
  by auto

lemma set_iteration_unfold:
  "set_iteration it \<longleftrightarrow>
     (set (it {''axel''}) = {''axel''} \<and> distinct (it {''axel''})) \<and>
     (set (it {''aria2''}) = {''aria2''} \<and> distinct (it {''aria2''}))"
proof -
  have e1: "set supported_multithread_clients - {''aria2''} = {''axel''}"
    by (auto simp: supported_multithread_clients_def)
  have e2: "set supported_multithread_clients - {''axel''} = {''aria2''}"
    by (auto simp: supported_multithread_clients_def)
  have "set_iteration it \<longleftrightarrow>
     (set (it (set supported_multithread_clients - {''aria2''}))
        = set supported_multithread_clients - {''aria2''}
      \<and> distinct (it (set supported_multithread_clients - {''aria2''}))) \<and>
     (set (it (set supported_multithread_clients - {''axel''}))
        = set supported_multithread_clients - {''axel''}
      \<and> distinct (it (set supported_multithread_clients - {''axel''})))"
    unfolding set_iteration_def
    by (subst (3) supported_multithread_clients_def) simp
  then show ?thesis unfolding e1 e2 .
qed

text \<open>After the preference is removed one client is left, so every order visits it first.\<close>

lemma rest_aria2: "set_iteration it \<Longrightarrow> it {''axel''} = [''axel'']"
  by (simp add: set_iteration_unfold distinct_singleton_set)

lemma rest_axel: "set_iteration it \<Longrightarrow> it {''aria2''} = [''aria2'']"
  by (simp add: set_iteration_unfold distinct_singleton_set)

lemma set_iteration_insertion_order: "set_iteration insertion_order"
  by (simp add: set_iteration_unfold insertion_order_def supported_multithread_clients_def)

lemma set_iteration_reversed_order: "set_iteration reversed_order"
  by (simp add: set_iteration_unfold reversed_order_def insertion_order_def
      supported_multithread_clients_def)

text \<open>What the method returns, by the preference and the two availabilities.\<close>

lemma tool_char:
  assumes "set_iteration it"
  shows "get_available_multithreaded_tool it self wh =
     (if \<not> multithread_enabled self then None
      else if multithread_client self = Some ''axel'' then
        (if is_axel_available wh then Some ''axel''
         else if is_aria2c_available wh then Some ''aria2'' else None)
      else
        (if is_aria2c_available wh then Some ''aria2''
         else if is_axel_available wh then Some ''axel'' else None))"
proof (cases "multithread_client self")
  case None
  then show ?thesis
    by (simp add: get_available_multithreaded_tool_def supported_multithread_clients_def
        is_multithreaded_client_available_def)
next
  case (Some c)
  consider "c = ''aria2''" | "c = ''axel''" | "c \<noteq> ''aria2''" "c \<noteq> ''axel''" by blast
  then show ?thesis
  proof cases
    case 1
    note r = rest_aria2 [OF assms]
    from 1 Some show ?thesis
      by (simp add: get_available_multithreaded_tool_def supported_multithread_clients_def
          is_multithreaded_client_available_def r clients_without_axel clients_without_aria2)
  next
    case 2
    note r = rest_axel [OF assms]
    from 2 Some show ?thesis
      by (simp add: get_available_multithreaded_tool_def supported_multithread_clients_def
          is_multithreaded_client_available_def r clients_without_axel clients_without_aria2)
  next
    case 3
    with Some show ?thesis
      by (simp add: get_available_multithreaded_tool_def supported_multithread_clients_def
          is_multithreaded_client_available_def)
  qed
qed

lemma resolve_char:
  "resolve pref enabled (is_multithreaded_client_available wh) =
     (if \<not> enabled then None
      else if pref = Some ''axel'' then
        (if is_axel_available wh then Some ''axel''
         else if is_aria2c_available wh then Some ''aria2'' else None)
      else
        (if is_aria2c_available wh then Some ''aria2''
         else if is_axel_available wh then Some ''axel'' else None))"
proof (cases pref)
  case None
  then show ?thesis
    by (simp add: resolve_def catalog_def is_multithreaded_client_available_def)
next
  case (Some c)
  consider "c = ''aria2''" | "c = ''axel''" | "c \<noteq> ''aria2''" "c \<noteq> ''axel''" by blast
  then show ?thesis
  proof cases
    case 1
    with Some show ?thesis
      by (simp add: resolve_def catalog_def is_multithreaded_client_available_def)
  next
    case 2
    with Some show ?thesis
      by (simp add: resolve_def catalog_def is_multithreaded_client_available_def)
  next
    case 3
    with Some show ?thesis
      by (simp add: resolve_def catalog_def is_multithreaded_client_available_def)
  qed
qed

lemma threads_override: "0 < m \<Longrightarrow> get_appropriate_threads_number (Some m) s = Inr m"
  by (simp add: get_appropriate_threads_number_def)

lemma no_override_cases:
  "m = None \<or> (\<exists>k. m = Some k \<and> k \<le> 0) \<Longrightarrow>
   get_appropriate_threads_number m s = get_appropriate_threads_number None s"
  by (auto simp: get_appropriate_threads_number_def)

lemma threads_none_none: "get_appropriate_threads_number None None = Inr 16"
  by (simp add: get_appropriate_threads_number_def)

lemma threads_none_zero: "get_appropriate_threads_number None (Some 0) = Inr 16"
  by (simp add: get_appropriate_threads_number_def)

lemma threads_none_pos:
  assumes "0 < s"
  shows "get_appropriate_threads_number None (Some s) =
     Inr (if 16000000 \<le> s then 16 else max 1 (s div 1000000))"
proof -
  from assms float_overflow_bound_pos have nb: "\<not> s \<le> - float_overflow_bound" by linarith
  from assms have ne: "s \<noteq> 0" by simp
  show ?thesis
    by (simp add: get_appropriate_threads_number_def Let_def nb ne max_def)
qed

subsection \<open>canOperate\<close>

text \<open>
  Claim C1, as the code has it: \<^verbatim>\<open>can_work\<close> is true exactly when wget is available, or
  multi-threaded mode is enabled and aria2c or axel is available. With the mode disabled
  \<^verbatim>\<open>get_available_multithreaded_tool\<close> returns \<^verbatim>\<open>None\<close> whatever is installed, so the
  multi-connection backends do not count.
\<close>

theorem can_work_characterisation:
  assumes "set_iteration it"
  shows "can_work it self wh \<longleftrightarrow>
     is_wget_available wh \<or>
     (multithread_enabled self \<and> (is_aria2c_available wh \<or> is_axel_available wh))"
  by (simp add: can_work_def is_multithreaded_def tool_char [OF assms] bool_str_def)

theorem can_work_characterisation_witness:
  "set_iteration insertion_order \<and>
   can_work insertion_order
     \<lparr>multithread_enabled = True, multithread_client = Some ''axel'', check_ssl = True\<rparr>
     host_only_aria2c"
  using can_work_characterisation [OF set_iteration_insertion_order,
      of "\<lparr>multithread_enabled = True, multithread_client = Some ''axel'', check_ssl = True\<rparr>"
         host_only_aria2c]
    set_iteration_insertion_order
  by (simp add: is_aria2c_available_def bool_str_def host_only_aria2c_def)

text \<open>
  The claim as it is worded, without the mode, fails: on a host with aria2c only and the
  mode disabled, \<^verbatim>\<open>can_work\<close> is false although a multi-connection backend is installed.
\<close>

theorem can_work_counterexample:
  "can_work insertion_order
     \<lparr>multithread_enabled = False, multithread_client = None, check_ssl = True\<rparr>
     host_only_aria2c
   \<noteq> (is_wget_available host_only_aria2c \<or> is_aria2c_available host_only_aria2c
        \<or> is_axel_available host_only_aria2c)"
  by (simp add: can_work_def is_multithreaded_def get_available_multithreaded_tool_def
      is_wget_available_def is_aria2c_available_def is_axel_available_def bool_str_def
      host_only_aria2c_def)

subsection \<open>Thread count\<close>

text \<open>
  Claim C2: the reference values of the thread-count policy. An override of 5 gives 5 for
  every size; without an override 20000000 bytes give 16, 5000000 give 5, 100 give 1 and
  no size gives 16; and with no positive override (none, or one that is 0 or negative) a
  known size \<open>z > 0\<close> gives 16 from 16000000 bytes on and \<open>max 1 (z div 1000000)\<close> below.
\<close>

theorem threads_reference_values:
  "get_appropriate_threads_number (Some 5) s = Inr 5
   \<and> get_appropriate_threads_number None (Some 20000000) = Inr 16
   \<and> get_appropriate_threads_number None (Some 5000000) = Inr 5
   \<and> get_appropriate_threads_number None (Some 100) = Inr 1
   \<and> get_appropriate_threads_number None None = Inr 16
   \<and> ((m = None \<or> (\<exists>k. m = Some k \<and> k \<le> 0)) \<and> 0 < z \<longrightarrow>
        get_appropriate_threads_number m (Some z) =
          Inr (if 16000000 \<le> z then 16 else max 1 (z div 1000000)))"
proof (intro conjI impI)
  show "get_appropriate_threads_number (Some 5) s = Inr 5"
    by (simp add: threads_override)
  show "get_appropriate_threads_number None (Some 20000000) = Inr 16"
    by (simp add: threads_none_pos)
  show "get_appropriate_threads_number None (Some 5000000) = Inr 5"
    by (simp add: threads_none_pos)
  show "get_appropriate_threads_number None (Some 100) = Inr 1"
    by (simp add: threads_none_pos)
  show "get_appropriate_threads_number None None = Inr 16"
    by (rule threads_none_none)
next
  assume h: "(m = None \<or> (\<exists>k. m = Some k \<and> k \<le> 0)) \<and> 0 < z"
  then have "get_appropriate_threads_number m (Some z)
      = get_appropriate_threads_number None (Some z)"
    by (intro no_override_cases) simp
  with h show "get_appropriate_threads_number m (Some z) =
          Inr (if 16000000 \<le> z then 16 else max 1 (z div 1000000))"
    using threads_none_pos [of z] by simp
qed

theorem threads_reference_values_witness:
  "(0::int) < 3500000 \<and> get_appropriate_threads_number (Some 0) (Some 3500000) = Inr 3
   \<and> get_appropriate_threads_number (Some (- 2)) (Some 999999) = Inr 1"
  using threads_reference_values [of None "Some 0" 3500000]
    threads_reference_values [of None "Some (- 2)" 999999]
  by simp

text \<open>
  Claim C10: with no positive override and a known size of exactly 0 bytes the result is
  16, not 1: \<^verbatim>\<open>elif known_size:\<close> is false for 0, so the size counts as absent.
\<close>

theorem threads_zero_size:
  assumes "m = None \<or> (\<exists>k. m = Some k \<and> k \<le> 0)"
  shows "get_appropriate_threads_number m (Some 0) = Inr 16
    \<and> get_appropriate_threads_number m (Some 0) \<noteq> Inr 1"
  using no_override_cases [OF assms, of "Some 0"] by (simp add: threads_none_zero)

theorem threads_zero_size_witness:
  "get_appropriate_threads_number None (Some 0) = Inr 16
   \<and> get_appropriate_threads_number (Some 0) (Some 0) = Inr 16"
  using threads_zero_size [of None] threads_zero_size [of "Some 0"] by simp

subsection \<open>Resolution\<close>

text \<open>
  Claim C3: \<^verbatim>\<open>get_available_multithreaded_tool\<close> computes the reference policy \<open>resolve\<close>
  of the specification, for every configuration, every host and every order in which
  Python may visit the set of remaining candidates: none when the mode is disabled; the
  first available client of the list (aria2 before axel) when no preference is set or
  the preference is not a supported client; the preference when it is available; and
  otherwise the first available remaining candidate.
\<close>

theorem tool_refines_resolve:
  assumes "set_iteration it"
  shows "get_available_multithreaded_tool it self wh =
     resolve (multithread_client self) (multithread_enabled self)
       (is_multithreaded_client_available wh)"
  by (simp only: tool_char [OF assms] resolve_char)

theorem tool_refines_resolve_witness:
  "set_iteration insertion_order
   \<and> get_available_multithreaded_tool insertion_order
       \<lparr>multithread_enabled = True, multithread_client = Some ''aria2'', check_ssl = True\<rparr>
       host_only_axel
     = resolve (Some ''aria2'') True (is_multithreaded_client_available host_only_axel)
   \<and> resolve (Some ''aria2'') True (is_multithreaded_client_available host_only_axel)
     = Some ''axel''"
proof -
  have "resolve (Some ''aria2'') True (is_multithreaded_client_available host_only_axel)
     = Some ''axel''"
    by (simp add: resolve_def catalog_def is_multithreaded_client_available_def
        is_aria2c_available_def is_axel_available_def bool_str_def host_only_axel_def)
  with tool_refines_resolve [OF set_iteration_insertion_order,
      of "\<lparr>multithread_enabled = True, multithread_client = Some ''aria2'', check_ssl = True\<rparr>"
         host_only_axel]
    set_iteration_insertion_order
  show ?thesis by simp
qed

text \<open>
  Claim C9: resolution and thread count are deterministic. Two calls with the same
  configuration on hosts with the same availability of aria2c and axel return the same
  backend, also when Python visits the candidate set in two different orders; two calls
  with the same override and size return the same thread count.
\<close>

theorem resolve_compute_deterministic:
  assumes "set_iteration it" and "set_iteration it'"
    and "self' = self"
    and "is_aria2c_available wh' = is_aria2c_available wh"
    and "is_axel_available wh' = is_axel_available wh"
    and "override' = override" and "bytes' = bytes"
  shows "get_available_multithreaded_tool it' self' wh'
           = get_available_multithreaded_tool it self wh
    \<and> get_appropriate_threads_number override' bytes'
           = get_appropriate_threads_number override bytes"
  using assms(3-) by (simp add: tool_char [OF assms(1)] tool_char [OF assms(2)])

theorem resolve_compute_deterministic_witness:
  "set_iteration insertion_order \<and> set_iteration reversed_order
   \<and> get_available_multithreaded_tool reversed_order
       \<lparr>multithread_enabled = True, multithread_client = Some ''aria2'', check_ssl = True\<rparr>
       host_only_axel
     = get_available_multithreaded_tool insertion_order
       \<lparr>multithread_enabled = True, multithread_client = Some ''aria2'', check_ssl = True\<rparr>
       host_only_axel
   \<and> get_available_multithreaded_tool insertion_order
       \<lparr>multithread_enabled = True, multithread_client = Some ''aria2'', check_ssl = True\<rparr>
       host_only_axel = Some ''axel''"
proof -
  have "get_available_multithreaded_tool insertion_order
       \<lparr>multithread_enabled = True, multithread_client = Some ''aria2'', check_ssl = True\<rparr>
       host_only_axel = Some ''axel''"
    by (simp add: get_available_multithreaded_tool_def supported_multithread_clients_def
        is_multithreaded_client_available_def is_aria2c_available_def is_axel_available_def
        bool_str_def host_only_axel_def insertion_order_def clients_without_aria2)
  with resolve_compute_deterministic [OF set_iteration_insertion_order
      set_iteration_reversed_order refl refl refl refl refl,
      of "\<lparr>multithread_enabled = True, multithread_client = Some ''aria2'', check_ssl = True\<rparr>"
         host_only_axel None None]
    set_iteration_insertion_order set_iteration_reversed_order
  show ?thesis by simp
qed

section \<open>The download call: the properties\<close>

subsection \<open>Strings\<close>

text \<open>\<^verbatim>\<open>split\<close> returns at least one part, so \<^verbatim>\<open>[-1]\<close> never raises \<^verbatim>\<open>IndexError\<close>.\<close>

lemma split_on_nonempty: "split_on c s \<noteq> []"
  by (induction s) (auto split: list.splits)

lemma last_split_on_no_separator: "c \<notin> set (last (split_on c s))"
proof (induction s)
  case Nil
  show ?case by simp
next
  case (Cons x xs)
  show ?case
  proof (cases "split_on c xs")
    case Nil
    with split_on_nonempty [of c xs] show ?thesis by simp
  next
    case (Cons w ws)
    with Cons.IH show ?thesis by (cases ws) auto
  qed
qed

subsection \<open>Cleanup and the end of the call\<close>

lemma trace_emit [simp]: "trace (emit e w) = trace w @ [e]"
  by (simp add: emit_def)

lemma files_emit [simp]: "files (emit e w) = files w"
  by (simp add: emit_def)

lemma ti_emit [simp]: "ti (emit e w) = ti w"
  by (simp add: emit_def)

lemma read_ti_simps [simp]:
  "trace (read_ti ev w) = trace w @ [Time_time (time_time ev w)]"
  "files (read_ti ev w) = files w"
  "ti (read_ti ev w) = time_time ev w"
  by (simp_all add: read_ti_def Let_def)

lemma str_or_nonempty: "d \<noteq> [] \<Longrightarrow> str_or x d \<noteq> []"
  by (simp add: str_or_def split: option.splits)

lemma to_delete_nonempty: "to_delete r \<noteq> []"
  unfolding to_delete_def by (rule str_or_nonempty) simp

lemma to_delete_output: "bool_str (output_path r) \<Longrightarrow> to_delete r = str_or (output_path r) []"
  by (simp add: to_delete_def bool_str_def str_or_def split: option.splits)

lemma rm_bad_file_absent: "to_delete r \<notin> files w \<Longrightarrow> rm_bad_file ev r w = (Inr None, w)"
  by (simp add: rm_bad_file_def)

lemma rm_bad_file_trace:
  "trace (snd (rm_bad_file ev r w)) =
     trace w @ (if to_delete r \<in> files w
                then [Log_info (Removing_downloaded (to_delete r)),
                      Handle_simple (rm_process (to_delete r) (root_password r))]
                else [])"
  by (simp add: rm_bad_file_def to_delete_nonempty Let_def split: prod.splits sum.splits)

lemma rm_bad_file_returns:
  assumes "cleanup_returns ev"
  shows "\<exists>u. fst (rm_bad_file ev r w) = Inr u"
proof (cases "to_delete r \<in> files w")
  case False
  then show ?thesis by (simp add: rm_bad_file_absent)
next
  case True
  from assms obtain b fs where
    "handle_simple ev (rm_process (to_delete r) (root_password r))
       (emit (Handle_simple (rm_process (to_delete r) (root_password r)))
          (emit (Log_info (Removing_downloaded (to_delete r))) w)) = (Inr b, fs)"
    unfolding cleanup_returns_def by blast
  with True show ?thesis
    by (simp add: rm_bad_file_def to_delete_nonempty Let_def)
qed

lemma finish_trace:
  "trace (world_of (finish ev r success w th)) =
     trace w @ Time_time (time_time ev w) #
       Log_info (Took (file_name r) (ti w) (time_time ev w)) #
       (if success then []
        else Log_error (Could_not_download (file_name r)) #
          (if to_delete r \<in> files w
           then [Log_info (Removing_downloaded (to_delete r)),
                 Handle_simple (rm_process (to_delete r) (root_password r))]
           else []))"
proof (cases success)
  case True
  then show ?thesis by (simp add: finish_def world_of_def Let_def)
next
  case False
  let ?w = "emit (Log_error (Could_not_download (file_name r)))
              (emit (Log_info (Took (file_name r) (ti w) (time_time ev w)))
                 (emit (Time_time (time_time ev w)) w))"
  have "world_of (finish ev r success w th) = snd (rm_bad_file ev r ?w)"
    using False by (simp add: finish_def world_of_def Let_def split: prod.splits sum.splits)
  with False show ?thesis by (simp add: rm_bad_file_trace)
qed

lemma finish_returns:
  assumes "cleanup_returns ev"
  shows "result_of (finish ev r success w th) = Inr success"
proof (cases success)
  case True
  then show ?thesis by (simp add: finish_def result_of_def Let_def)
next
  case False
  let ?w = "emit (Log_error (Could_not_download (file_name r)))
              (emit (Log_info (Took (file_name r) (ti w) (time_time ev w)))
                 (emit (Time_time (time_time ev w)) w))"
  from rm_bad_file_returns [OF assms, of r ?w] obtain u where "fst (rm_bad_file ev r ?w) = Inr u" ..
  with False show ?thesis
    by (auto simp: finish_def result_of_def Let_def split: prod.splits sum.splits)
qed

lemma finish_thread: "thread_of (finish ev r success w th) = th"
  by (simp add: finish_def thread_of_def Let_def split: prod.splits sum.splits)

subsection \<open>The try block\<close>

lemma bool_str_Some: "p \<noteq> [] \<Longrightarrow> bool_str (Some p)"
  by (simp add: bool_str_def)

lemma str_or_Some: "p \<noteq> [] \<Longrightarrow> str_or (Some p) d = p"
  by (simp add: str_or_def)

lemma prepare_mkdir_fails:
  assumes "mkdir_fails ev r (files w)"
  shows "prepare_output ev r w =
     (let d = dirname (str_or (output_path r) []);
          w2 = emit (Log_error (Mkdir_failed d)) (emit (Mkdir d) w)
      in if watcher r
         then (Some (Returned False),
               emit (Watcher_print (format_dir ev (i18n ev ''error.mkdir'') d)) w2)
         else (Some (Raised AttributeError), w2))"
  using assms by (simp add: prepare_output_def mkdir_fails_def Let_def)

lemma prepare_returned_iff:
  "fst (prepare_output ev r w) = Some (Returned b) \<longleftrightarrow>
     \<not> b \<and> mkdir_fails ev r (files w) \<and> watcher r"
  by (auto simp: prepare_output_def mkdir_fails_def Let_def
      split: option.splits sum.splits if_splits)

lemma prepare_stale:
  assumes "bool_str (output_path r)" and "str_or (output_path r) [] = p" and "p \<in> files w"
  shows "prepare_output ev r w =
     (case os_remove ev p of
        Some e \<Rightarrow> (Some (Raised e), emit (Os_remove p False) (emit (Log_info (Removing_old p)) w))
      | None \<Rightarrow>
          (None, emit (Log_info (Old_removed p))
                   (emit (Os_remove p True)
                      ((emit (Log_info (Removing_old p)) w)\<lparr>files := files w - {p}\<rparr>))))"
  using assms by (simp add: prepare_output_def Let_def split: option.splits)

lemma notify_trace:
  "\<exists>post. trace (fst (notify ev r d w)) = trace w @ post
     \<and> (\<forall>pr. Handle_simple pr \<notin> set post)"
  by (auto simp: notify_def Let_def split: option.splits)

lemma launch_not_returned: "fst (launch ev self r w) \<noteq> Returned b"
  by (auto simp: launch_def Let_def split: sum.splits prod.splits)

lemma launch_trace: "\<exists>post. trace (fst (snd (launch ev self r w))) = trace w @ post"
proof (cases "select_process ev self r")
  case (Inl e)
  then show ?thesis by (simp add: launch_def)
next
  case (Inr x)
  obtain pr d where x: "x = (pr, d)" by (cases x)
  from notify_trace [of ev r d "read_ti ev w"] obtain post where
    p: "trace (fst (notify ev r d (read_ti ev w))) = trace w @ Time_time (time_time ev w) # post"
    by auto
  from Inr x p show ?thesis
    by (auto simp: launch_def Let_def split: sum.splits prod.splits)
qed

lemma download_try_returned_iff:
  "fst (download_try ev self r w) = Returned b \<longleftrightarrow>
     \<not> b \<and> mkdir_fails ev r (files w) \<and> watcher r"
proof (cases "prepare_output ev r w")
  case (Pair oc w1)
  show ?thesis
  proof (cases oc)
    case None
    with Pair have "fst (prepare_output ev r w) \<noteq> Some (Returned b)" by simp
    moreover from None Pair have "fst (download_try ev self r w) \<noteq> Returned b"
      by (simp add: download_try_def launch_not_returned)
    ultimately show ?thesis by (simp add: prepare_returned_iff)
  next
    case (Some o')
    with Pair have "fst (download_try ev self r w) = Returned b
        \<longleftrightarrow> fst (prepare_output ev r w) = Some (Returned b)"
      by (simp add: download_try_def)
    then show ?thesis by (simp add: prepare_returned_iff)
  qed
qed

lemma download_Returned:
  "download_try ev self r (initial_world ev r fs) = (Returned b, w1, th) \<Longrightarrow>
   download ev self r fs = (Inr b, w1, th)"
  by (simp add: download_def)

lemma download_Completed:
  "download_try ev self r (initial_world ev r fs) = (Completed s, w1, th) \<Longrightarrow>
   download ev self r fs = finish ev r s w1 th"
  by (simp add: download_def)

lemma download_Raised:
  "download_try ev self r (initial_world ev r fs) = (Raised e, w1, th) \<Longrightarrow>
   download ev self r fs =
     (case rm_bad_file ev r (emit Print_exc w1) of
        (Inl e', w2) \<Rightarrow> (Inl e', w2, th)
      | (Inr u, w2) \<Rightarrow> finish ev r False w2 th)"
  by (simp add: download_def)

lemma files_initial [simp]: "files (initial_world ev r fs) = fs"
  by (simp add: initial_world_def)

lemma trace_initial [simp]:
  "trace (initial_world ev r fs) =
     [Log_info (Downloading (file_url r)), Time_time (start_time ev r fs)]"
  by (simp add: initial_world_def start_time_def)

lemma ti_initial [simp]: "ti (initial_world ev r fs) = start_time ev r fs"
  by (simp add: initial_world_def start_time_def)

lemma mkdir_fails_I:
  "output_path r = Some p \<Longrightarrow> p \<noteq> [] \<Longrightarrow> p \<notin> fs \<Longrightarrow> mkdir ev (dirname p) fs = Inl OSError
   \<Longrightarrow> mkdir_fails ev r fs"
  by (simp add: mkdir_fails_def bool_str_Some str_or_Some)

lemma mkdir_fails_to_delete: "mkdir_fails ev r fs \<Longrightarrow> to_delete r \<notin> fs"
  by (simp add: mkdir_fails_def to_delete_output)

lemma download_mkdir_fails:
  assumes "mkdir_fails ev r fs"
  shows "download ev self r fs =
     (let d = dirname (str_or (output_path r) []);
          w2 = emit (Log_error (Mkdir_failed d)) (emit (Mkdir d) (initial_world ev r fs))
      in if watcher r
         then (Inr False,
               emit (Watcher_print (format_dir ev (i18n ev ''error.mkdir'') d)) w2, [])
         else (Inr False,
               emit (Log_error (Could_not_download (file_name r)))
                 (emit (Log_info (Took (file_name r) (start_time ev r fs)
                                    (time_time ev (emit Print_exc w2))))
                    (emit (Time_time (time_time ev (emit Print_exc w2)))
                       (emit Print_exc w2))), []))"
proof -
  from assms have m: "mkdir_fails ev r (files (initial_world ev r fs))" by simp
  note td = mkdir_fails_to_delete [OF assms]
  show ?thesis
  proof (cases "watcher r")
    case True
    with prepare_mkdir_fails [OF m] show ?thesis
      by (simp add: download_def download_try_def Let_def)
  next
    case False
    with prepare_mkdir_fails [OF m] td show ?thesis
      by (simp add: download_def download_try_def Let_def rm_bad_file_absent finish_def)
  qed
qed

lemma download_after_try:
  assumes t: "download_try ev self r (initial_world ev r fs) = (oc, w1, th)"
  shows "\<exists>post. trace (world_of (download ev self r fs)) = trace w1 @ post
     \<and> (\<forall>pr. Handle_simple pr \<in> set post \<longrightarrow> pr = rm_process (to_delete r) (root_password r))
     \<and> (to_delete r \<notin> files w1 \<longrightarrow> (\<forall>pr. Handle_simple pr \<notin> set post))
     \<and> (to_delete r \<in> files w1 \<and> oc \<noteq> Completed True \<and> (\<forall>b. oc \<noteq> Returned b) \<longrightarrow>
          Handle_simple (rm_process (to_delete r) (root_password r)) \<in> set post)"
proof (cases oc)
  case (Returned b)
  with t show ?thesis by (simp add: download_Returned world_of_def)
next
  case (Completed s)
  with t show ?thesis by (simp add: download_Completed finish_trace)
next
  case (Raised e)
  obtain x w2 where rm: "rm_bad_file ev r (emit Print_exc w1) = (x, w2)"
    by (cases "rm_bad_file ev r (emit Print_exc w1)") auto
  from rm_bad_file_trace [of ev r "emit Print_exc w1"] rm
  have tr2: "trace w2 = trace w1 @ Print_exc #
      (if to_delete r \<in> files w1
       then [Log_info (Removing_downloaded (to_delete r)),
             Handle_simple (rm_process (to_delete r) (root_password r))]
       else [])"
    by simp
  have f2: "to_delete r \<notin> files w1 \<Longrightarrow> files w2 = files w1"
    using rm by (auto simp: rm_bad_file_absent)
  show ?thesis
  proof (cases x)
    case (Inl e')
    with rm Raised t have "world_of (download ev self r fs) = w2"
      by (simp add: download_Raised world_of_def)
    with tr2 show ?thesis by simp
  next
    case (Inr u)
    with rm Raised t have "download ev self r fs = finish ev r False w2 th"
      by (simp add: download_Raised)
    with tr2 f2 show ?thesis by (simp add: finish_trace)
  qed
qed

subsection \<open>The probe thread\<close>

lemma thread_starts_append [simp]:
  "thread_starts (xs @ ys) = thread_starts xs @ thread_starts ys"
  by (induction xs rule: thread_starts.induct) simp_all

lemma probe_events_append [simp]:
  "probe_events ev (xs @ ys) = probe_events ev xs @ probe_events ev ys"
  by (simp add: probe_events_def)

lemma probe_events_simps [simp]:
  "probe_events ev [] = []"
  "probe_events ev (Log_info m # es) = probe_events ev es"
  "probe_events ev (Log_error m # es) = probe_events ev es"
  "probe_events ev (Os_remove p ok # es) = probe_events ev es"
  "probe_events ev (Mkdir d # es) = probe_events ev es"
  "probe_events ev (Watcher_print t # es) = probe_events ev es"
  "probe_events ev (Change_substatus t # es) = probe_events ev es"
  "probe_events ev (Handle_simple pr # es) = probe_events ev es"
  "probe_events ev (Print_exc # es) = probe_events ev es"
  "probe_events ev (Time_time ts # es) = probe_events ev es"
  "probe_events ev (Thread_start u b # es) = snd (concat_file_size ev u b) @ probe_events ev es"
  by (simp_all add: probe_events_def)

lemma prepare_probe:
  "probe_events ev' (trace (snd (prepare_output ev r w))) = probe_events ev' (trace w)"
  by (auto simp: prepare_output_def Let_def split: option.splits sum.splits)

lemma rm_bad_file_probe:
  "probe_events ev' (trace (snd (rm_bad_file ev r w))) = probe_events ev' (trace w)"
  by (simp add: rm_bad_file_trace)

lemma finish_probe:
  "probe_events ev' (trace (world_of (finish ev r s w th))) = probe_events ev' (trace w)"
  by (simp add: finish_trace)

lemma notify_starts_probe:
  "probe_events ev (trace w) = [] \<Longrightarrow>
   probe_events ev (trace (fst (notify ev r d w))) = snd (notify ev r d w)"
  by (auto simp: notify_def Let_def split: option.splits)

lemma launch_probe:
  assumes "probe_events ev (trace w) = []"
  shows "probe_events ev (trace (fst (snd (launch ev self r w)))) = snd (snd (launch ev self r w))"
proof (cases "select_process ev self r")
  case (Inl e)
  with assms show ?thesis by (simp add: launch_def)
next
  case (Inr x)
  obtain pr d where x: "x = (pr, d)" by (cases x)
  obtain w1 th where n: "notify ev r d (read_ti ev w) = (w1, th)"
    by (cases "notify ev r d (read_ti ev w)")
  from assms have "probe_events ev (trace (read_ti ev w)) = []" by simp
  from notify_starts_probe [OF this, of r d] n have "probe_events ev (trace w1) = th" by simp
  with Inr x n show ?thesis
    by (auto simp: launch_def Let_def split: sum.splits prod.splits)
qed

lemma download_try_probe:
  assumes "probe_events ev (trace w) = []"
  shows "probe_events ev (trace (fst (snd (download_try ev self r w))))
           = snd (snd (download_try ev self r w))"
proof (cases "prepare_output ev r w")
  case (Pair oc w1)
  from prepare_probe [of ev ev r w] Pair assms have e: "probe_events ev (trace w1) = []" by simp
  show ?thesis
  proof (cases oc)
    case None
    with Pair launch_probe [OF e] show ?thesis by (simp add: download_try_def)
  next
    case (Some o')
    with Pair e show ?thesis by (simp add: download_try_def)
  qed
qed

lemma download_probe:
  "thread_of (download ev self r fs) = probe_events ev (trace (world_of (download ev self r fs)))"
proof -
  obtain oc w1 th where t: "download_try ev self r (initial_world ev r fs) = (oc, w1, th)"
    by (cases "download_try ev self r (initial_world ev r fs)") auto
  have "probe_events ev (trace (initial_world ev r fs)) = []" by simp
  from download_try_probe [OF this, of self r] t have th: "probe_events ev (trace w1) = th" by simp
  show ?thesis
  proof (cases oc)
    case (Returned b)
    with t th show ?thesis by (simp add: download_Returned world_of_def thread_of_def)
  next
    case (Completed s)
    with t th show ?thesis by (simp add: download_Completed finish_probe finish_thread)
  next
    case (Raised e)
    obtain x w2 where rm: "rm_bad_file ev r (emit Print_exc w1) = (x, w2)"
      by (cases "rm_bad_file ev r (emit Print_exc w1)") auto
    from rm_bad_file_probe [of ev ev r "emit Print_exc w1"] rm th
    have th2: "probe_events ev (trace w2) = th" by simp
    show ?thesis
    proof (cases x)
      case (Inl e')
      with rm Raised t th2 show ?thesis
        by (simp add: download_Raised world_of_def thread_of_def)
    next
      case (Inr u)
      with rm Raised t th2 show ?thesis
        by (simp add: download_Raised finish_probe finish_thread)
    qed
  qed
qed

lemma prepare_indep:
  "prepare_output (ev\<lparr>get_content_length := g\<rparr>) r w = prepare_output ev r w"
  by (simp add: prepare_output_def Let_def cong: option.case_cong sum.case_cong if_cong)

lemma select_indep:
  "select_process (ev\<lparr>get_content_length := g\<rparr>) self r = select_process ev self r"
  by (simp add: select_process_def Let_def cong: option.case_cong sum.case_cong if_cong)

lemma rm_indep: "rm_bad_file (ev\<lparr>get_content_length := g\<rparr>) r w = rm_bad_file ev r w"
  by (simp add: rm_bad_file_def Let_def cong: prod.case_cong sum.case_cong if_cong)

lemma substatus_msg_indep:
  "substatus_msg (ev\<lparr>get_content_length := g\<rparr>) r d = substatus_msg ev r d"
  by (simp add: substatus_msg_def)

lemma notify_indep:
  "fst (notify (ev\<lparr>get_content_length := g\<rparr>) r d w) = fst (notify ev r d w)"
  by (simp add: notify_def substatus_msg_indep Let_def split: option.splits)

lemma finish_indep:
  "result_of (finish (ev\<lparr>get_content_length := g\<rparr>) r s w th') = result_of (finish ev r s w th)
   \<and> world_of (finish (ev\<lparr>get_content_length := g\<rparr>) r s w th') = world_of (finish ev r s w th)"
  by (simp add: finish_def rm_indep result_of_def world_of_def Let_def
      split: prod.splits sum.splits)

lemma launch_indep:
  "fst (launch (ev\<lparr>get_content_length := g\<rparr>) self r w) = fst (launch ev self r w)
   \<and> fst (snd (launch (ev\<lparr>get_content_length := g\<rparr>) self r w)) = fst (snd (launch ev self r w))"
proof (cases "select_process ev self r")
  case (Inl e)
  then show ?thesis by (simp add: launch_def select_indep)
next
  case (Inr x)
  obtain pr d where x: "x = (pr, d)" by (cases x)
  have rt: "read_ti (ev\<lparr>get_content_length := g\<rparr>) w = read_ti ev w"
    by (simp add: read_ti_def)
  obtain w1 th where n: "notify ev r d (read_ti ev w) = (w1, th)"
    by (cases "notify ev r d (read_ti ev w)")
  obtain w1' th' where
    n': "notify (ev\<lparr>get_content_length := g\<rparr>) r d (read_ti ev w) = (w1', th')"
    by (cases "notify (ev\<lparr>get_content_length := g\<rparr>) r d (read_ti ev w)")
  from notify_indep [where ev = ev and g = g and r = r and d = d and w = "read_ti ev w"] n n'
  have "w1' = w1" by simp
  with Inr x n n' show ?thesis
    by (simp add: launch_def select_indep rt Let_def split: prod.splits sum.splits)
qed

lemma initial_world_indep:
  "initial_world (ev\<lparr>get_content_length := g\<rparr>) r fs = initial_world ev r fs"
  by (simp add: initial_world_def read_ti_def)

lemma download_try_indep:
  "fst (download_try (ev\<lparr>get_content_length := g\<rparr>) self r w) = fst (download_try ev self r w)
   \<and> fst (snd (download_try (ev\<lparr>get_content_length := g\<rparr>) self r w))
       = fst (snd (download_try ev self r w))"
  by (simp add: download_try_def prepare_indep launch_indep split: prod.splits option.splits)

lemma download_indep:
  "result_of (download (ev\<lparr>get_content_length := g\<rparr>) self r fs) = result_of (download ev self r fs)
   \<and> world_of (download (ev\<lparr>get_content_length := g\<rparr>) self r fs)
       = world_of (download ev self r fs)"
proof -
  let ?ev = "ev\<lparr>get_content_length := g\<rparr>"
  obtain oc w1 th where t: "download_try ev self r (initial_world ev r fs) = (oc, w1, th)"
    by (cases "download_try ev self r (initial_world ev r fs)") auto
  note iw = initial_world_indep [where ev = ev and g = g and r = r and fs = fs]
  obtain oc' w1' th' where t0: "download_try ?ev self r (initial_world ?ev r fs) = (oc', w1', th')"
    by (cases "download_try ?ev self r (initial_world ?ev r fs)") auto
  then have t': "download_try ?ev self r (initial_world ev r fs) = (oc', w1', th')"
    by (simp only: iw)
  from download_try_indep [where ev = ev and g = g and self = self and r = r
      and w = "initial_world ev r fs"] t t'
  have e: "oc' = oc" "w1' = w1" by simp_all
  show ?thesis
  proof (cases oc)
    case (Returned b)
    with t t0 e show ?thesis by (simp add: download_Returned result_of_def world_of_def)
  next
    case (Completed s)
    with t t0 e show ?thesis by (simp add: download_Completed finish_indep)
  next
    case (Raised x)
    obtain y w2 where rm: "rm_bad_file ev r (emit Print_exc w1) = (y, w2)"
      by (cases "rm_bad_file ev r (emit Print_exc w1)") auto
    show ?thesis
    proof (cases y)
      case (Inl e')
      with rm Raised t t0 e show ?thesis
        by (simp add: download_Raised rm_indep result_of_def world_of_def)
    next
      case (Inr u)
      with rm Raised t t0 e show ?thesis
        by (simp add: download_Raised rm_indep finish_indep)
    qed
  qed
qed

lemma failed_probe_events:
  assumes "\<forall>u. (\<exists>e. get_content_length ev u = Probe_raised e)
               \<or> (\<exists>t. get_content_length ev u = Probe_returned False t)"
  shows "probe_events ev tr =
     map (\<lambda>(u, b). Change_substatus (b @ '' ( ? Mb )'')) (thread_starts tr)"
proof -
  have "snd (concat_file_size ev u b) = [Change_substatus (b @ '' ( ? Mb )'')]" for u b
    using assms [rule_format, of u] by (auto simp: concat_file_size_def)
  then show ?thesis
    by (induction tr rule: thread_starts.induct) (simp_all add: probe_events_def)
qed

lemma concat_same_probe:
  "g u = get_content_length ev u \<Longrightarrow>
   concat_file_size (ev\<lparr>get_content_length := g\<rparr>) u b = concat_file_size ev u b"
  by (simp add: concat_file_size_def)

lemma notify_same_probe:
  "g (file_url r) = get_content_length ev (file_url r) \<Longrightarrow>
   notify (ev\<lparr>get_content_length := g\<rparr>) r d w = notify ev r d w"
  by (simp add: notify_def substatus_msg_indep concat_same_probe Let_def
      cong: option.case_cong if_cong)

lemma launch_same_probe:
  "g (file_url r) = get_content_length ev (file_url r) \<Longrightarrow>
   launch (ev\<lparr>get_content_length := g\<rparr>) self r w = launch ev self r w"
  by (simp add: launch_def select_indep notify_same_probe read_ti_def Let_def
      cong: sum.case_cong prod.case_cong)

lemma download_same_probe:
  assumes "g (file_url r) = get_content_length ev (file_url r)"
  shows "download (ev\<lparr>get_content_length := g\<rparr>) self r fs = download ev self r fs"
proof -
  have f: "finish (ev\<lparr>get_content_length := g\<rparr>) r s w th = finish ev r s w th" for s w th
    by (simp add: finish_def rm_indep Let_def)
  have l: "launch (ev\<lparr>get_content_length := g\<rparr>) self r w = launch ev self r w" for w
    using assms by (rule launch_same_probe)
  have "download_try (ev\<lparr>get_content_length := g\<rparr>) self r w = download_try ev self r w" for w
    by (simp add: download_try_def prepare_indep l split: prod.splits option.splits)
  then show ?thesis
    by (simp add: download_def rm_indep f initial_world_indep Let_def
        split: prod.splits outcome.splits sum.splits)
qed

subsection \<open>Failure and cleanup\<close>

text \<open>
  Claim C4, as the code has it. A call fails when its \<^verbatim>\<open>try\<close> block does not end with
  \<^verbatim>\<open>success = True\<close>: the process reports failure, an exception is raised in the block, or
  the block returns after a failed \<^verbatim>\<open>mkdir\<close>. If \<^verbatim>\<open>handle_simple\<close> raises nothing for the
  cleanup command \<^verbatim>\<open>rm -rf\<close>, such a call returns \<^verbatim>\<open>False\<close>, and after the block it runs
  \<^verbatim>\<open>rm -rf\<close> on the output artifact exactly when the artifact exists at the end of the
  block. The flag and the file system the cleanup leaves are arbitrary here, so a
  deletion that fails does not change the returned \<^verbatim>\<open>False\<close>.
\<close>

theorem failed_download_is_cleaned_up:
  assumes "cleanup_returns ev"
    and t: "download_try ev self r (initial_world ev r fs) = (oc, w1, th)"
    and f: "oc \<noteq> Completed True"
  shows "result_of (download ev self r fs) = Inr False
    \<and> (\<exists>post. trace (world_of (download ev self r fs)) = trace w1 @ post
         \<and> (Handle_simple (rm_process (to_delete r) (root_password r)) \<in> set post
              \<longleftrightarrow> to_delete r \<in> files w1))"
proof -
  have res: "result_of (download ev self r fs) = Inr False"
  proof (cases oc)
    case (Returned b)
    with t have "fst (download_try ev self r (initial_world ev r fs)) = Returned b" by simp
    then have "\<not> b" by (simp add: download_try_returned_iff)
    with Returned t show ?thesis by (simp add: download_Returned result_of_def)
  next
    case (Completed s)
    with f t show ?thesis by (simp add: download_Completed finish_returns [OF assms(1)])
  next
    case (Raised e)
    from rm_bad_file_returns [OF assms(1), of r "emit Print_exc w1"]
    obtain u w2 where "rm_bad_file ev r (emit Print_exc w1) = (Inr u, w2)"
      by (cases "rm_bad_file ev r (emit Print_exc w1)") auto
    with Raised t show ?thesis by (simp add: download_Raised finish_returns [OF assms(1)])
  qed
  have absent: "to_delete r \<notin> files w1" if "oc = Returned b" for b
  proof -
    from that t have "fst (download_try ev self r (initial_world ev r fs)) = Returned b" by simp
    then have m: "mkdir_fails ev r fs" and w: "watcher r"
      by (simp_all add: download_try_returned_iff)
    from download_mkdir_fails [OF m, of self] w download_Returned [of ev self r fs b w1 th] that t
    have "files w1 = fs" by (auto simp: Let_def)
    with mkdir_fails_to_delete [OF m] show ?thesis by simp
  qed
  from download_after_try [OF t] obtain post where
    p: "trace (world_of (download ev self r fs)) = trace w1 @ post"
    and a: "to_delete r \<notin> files w1 \<longrightarrow> (\<forall>pr. Handle_simple pr \<notin> set post)"
    and b: "to_delete r \<in> files w1 \<and> oc \<noteq> Completed True \<and> (\<forall>b. oc \<noteq> Returned b) \<longrightarrow>
          Handle_simple (rm_process (to_delete r) (root_password r)) \<in> set post"
    by blast
  from a b f absent have
    "Handle_simple (rm_process (to_delete r) (root_password r)) \<in> set post
       \<longleftrightarrow> to_delete r \<in> files w1"
    by blast
  with res p show ?thesis by blast
qed

lemma cleanup_returns_failing_backend: "cleanup_returns env_failing_backend"
  by (auto simp: cleanup_returns_def env_failing_backend_def quiet_env_def rm_process_def)

theorem failed_download_is_cleaned_up_witness:
  "cleanup_returns env_failing_backend
   \<and> fst (download_try env_failing_backend plain_downloader request_iso
            (initial_world env_failing_backend request_iso {})) = Completed False
   \<and> to_delete request_iso = ''/tmp/f.iso''
   \<and> result_of (download env_failing_backend plain_downloader request_iso {}) = Inr False
   \<and> Handle_simple (rm_process ''/tmp/f.iso'' None)
       \<in> set (trace (world_of (download env_failing_backend plain_downloader request_iso {})))"
proof -
  let ?t = "download_try env_failing_backend plain_downloader request_iso
              (initial_world env_failing_backend request_iso {})"
  have oc: "fst ?t = Completed False" by code_simp
  have td: "to_delete request_iso = ''/tmp/f.iso''" by code_simp
  have rp: "root_password request_iso = None" by code_simp
  have ex: "to_delete request_iso \<in> files (fst (snd ?t))" by code_simp
  have t: "?t = (fst ?t, fst (snd ?t), snd (snd ?t))" by simp
  have ne: "fst ?t \<noteq> Completed True" using oc by simp
  from failed_download_is_cleaned_up [OF cleanup_returns_failing_backend t ne] ex
  have "result_of (download env_failing_backend plain_downloader request_iso {}) = Inr False"
    and "Handle_simple (rm_process (to_delete request_iso) (root_password request_iso))
       \<in> set (trace (world_of (download env_failing_backend plain_downloader request_iso {})))"
    by auto
  with cleanup_returns_failing_backend oc td rp show ?thesis by simp
qed

text \<open>
  Without the condition on the cleanup command the claim fails: \<^verbatim>\<open>_rm_bad_file\<close> is called
  in the handler of the bare \<^verbatim>\<open>except:\<close> and after the \<^verbatim>\<open>try\<close> statement, outside any
  handler. Here the backend reports failure and leaves a partial file, \<^verbatim>\<open>handle_simple\<close>
  raises for \<^verbatim>\<open>rm -rf\<close>, and the call raises instead of returning \<^verbatim>\<open>False\<close>.
\<close>

theorem failed_download_raises_counterexample:
  "fst (download_try env_cleanup_raises plain_downloader request_iso
          (initial_world env_cleanup_raises request_iso {})) = Completed False
   \<and> result_of (download env_cleanup_raises plain_downloader request_iso {}) = Inl OSError"
  by code_simp

subsection \<open>Directory creation\<close>

text \<open>
  Claim C5: when an output path is given at which nothing exists and creating its
  directory raises \<^verbatim>\<open>OSError\<close>, the call returns \<^verbatim>\<open>False\<close>, no process is handed to
  \<^verbatim>\<open>handle_simple\<close> (neither a backend nor \<^verbatim>\<open>rm\<close>), and a watcher, when there is one, is
  sent the translated text of \<^verbatim>\<open>error.mkdir\<close> formatted with the directory.
\<close>

theorem mkdir_failure_is_fatal:
  assumes "output_path r = Some p" and "p \<noteq> []" and "p \<notin> fs"
    and "mkdir ev (dirname p) fs = Inl OSError"
  shows "result_of (download ev self r fs) = Inr False
    \<and> (\<forall>pr. Handle_simple pr \<notin> set (trace (world_of (download ev self r fs))))
    \<and> (watcher r \<longrightarrow>
         Watcher_print (format_dir ev (i18n ev ''error.mkdir'') (dirname p))
           \<in> set (trace (world_of (download ev self r fs))))"
proof -
  have m: "mkdir_fails ev r fs" using assms by (rule mkdir_fails_I)
  from assms have p: "str_or (output_path r) [] = p" by (simp add: str_or_Some)
  show ?thesis
    by (simp add: download_mkdir_fails [OF m] p result_of_def world_of_def Let_def)
qed

theorem mkdir_failure_is_fatal_witness:
  "output_path request_iso = Some ''/tmp/f.iso''
   \<and> mkdir env_no_directory (dirname ''/tmp/f.iso'') {} = Inl OSError
   \<and> result_of (download env_no_directory plain_downloader request_iso {}) = Inr False
   \<and> Watcher_print ''error.mkdir: /tmp''
       \<in> set (trace (world_of (download env_no_directory plain_downloader request_iso {})))"
proof -
  have h1: "output_path request_iso = Some ''/tmp/f.iso''" by code_simp
  have h2: "''/tmp/f.iso'' \<noteq> []" by simp
  have h3: "''/tmp/f.iso'' \<notin> {}" by simp
  have h4: "mkdir env_no_directory (dirname ''/tmp/f.iso'') {} = Inl OSError"
    by (simp add: env_no_directory_def)
  have w: "watcher request_iso" by code_simp
  have m: "format_dir env_no_directory (i18n env_no_directory ''error.mkdir'')
             (dirname ''/tmp/f.iso'') = ''error.mkdir: /tmp''" by code_simp
  from mkdir_failure_is_fatal [OF h1 h2 h3 h4, of plain_downloader] w m h1 h4
  show ?thesis by simp
qed

subsection \<open>Elapsed time\<close>

lemma readings_append [simp]: "readings (xs @ ys) = readings xs @ readings ys"
  by (induction xs rule: readings.induct) simp_all

lemma took_logs_append [simp]: "took_logs (xs @ ys) = took_logs xs @ took_logs ys"
  by (induction xs rule: took_logs.induct) simp_all











subsection \<open>The size probe\<close>

text \<open>
  Claim C7, as the code has it. When \<^verbatim>\<open>get_content_length\<close> raises or returns a false
  value, \<^verbatim>\<open>_concat_file_size\<close> raises nothing and shows one text, the base text followed
  by the placeholder \<^verbatim>\<open> ( ? Mb )\<close>; the events of the probe threads of a call are exactly
  one such placeholder for each thread started, with no later update; and what the call
  returns and does is the same as with any other probe \<open>g\<close>, a successful one included.
\<close>

theorem probe_failure_is_absorbed:
  assumes "get_content_length ev (file_url r) = Probe_raised e
         \<or> get_content_length ev (file_url r) = Probe_returned False text"
  shows "concat_file_size ev (file_url r) base
           = (Inr (), [Change_substatus (base @ '' ( ? Mb )'')])
    \<and> thread_of (download ev self r fs)
        = map (\<lambda>(u, b). Change_substatus (b @ '' ( ? Mb )''))
            (thread_starts (trace (world_of (download ev self r fs))))
    \<and> result_of (download (ev\<lparr>get_content_length := g\<rparr>) self r fs)
        = result_of (download ev self r fs)
    \<and> world_of (download (ev\<lparr>get_content_length := g\<rparr>) self r fs)
        = world_of (download ev self r fs)"
proof -
  let ?g = "\<lambda>u. if u = file_url r then get_content_length ev u else Probe_raised OtherError"
  let ?ev = "ev\<lparr>get_content_length := ?g\<rparr>"
  have same: "download ?ev self r fs = download ev self r fs"
    by (rule download_same_probe) simp
  from assms have "\<forall>u. (\<exists>e. get_content_length ?ev u = Probe_raised e)
               \<or> (\<exists>t. get_content_length ?ev u = Probe_returned False t)"
    by auto
  from failed_probe_events [OF this] download_probe [of ?ev self r fs]
  have "thread_of (download ev self r fs)
        = map (\<lambda>(u, b). Change_substatus (b @ '' ( ? Mb )''))
            (thread_starts (trace (world_of (download ev self r fs))))"
    unfolding same by simp
  moreover from assms have "concat_file_size ev (file_url r) base
           = (Inr (), [Change_substatus (base @ '' ( ? Mb )'')])"
    by (auto simp: concat_file_size_def)
  ultimately show ?thesis
    using download_indep [where ev = ev and g = g and self = self and r = r and fs = fs]
    by simp
qed

theorem probe_failure_is_absorbed_witness:
  "get_content_length quiet_env (file_url request_iso) = Probe_raised OtherError
   \<and> thread_starts (trace (world_of (download quiet_env plain_downloader request_iso {})))
       = [(''http://host/f.iso'', ''[wget] downloading f.iso'')]
   \<and> thread_of (download quiet_env plain_downloader request_iso {})
       = [Change_substatus ''[wget] downloading f.iso ( ? Mb )'']
   \<and> result_of (download (quiet_env\<lparr>get_content_length := \<lambda>u. Probe_returned True ''700 MB''\<rparr>)
        plain_downloader request_iso {}) = Inr True"
proof -
  have h: "get_content_length quiet_env (file_url request_iso) = Probe_raised OtherError"
    by (simp add: quiet_env_def)
  have s: "thread_starts (trace (world_of (download quiet_env plain_downloader request_iso {})))
       = [(''http://host/f.iso'', ''[wget] downloading f.iso'')]" by code_simp
  have r: "result_of (download quiet_env plain_downloader request_iso {}) = Inr True"
    by code_simp
  from probe_failure_is_absorbed [where ev = quiet_env and r = request_iso
      and e = OtherError and self = plain_downloader and fs = "{}"
      and g = "\<lambda>u. Probe_returned True ''700 MB''", OF disjI1 [OF h]]
    h s r
  show ?thesis by simp
qed

text \<open>
  The placeholder is not the text \<^verbatim>\<open>( ? )\<close> of the claim: with a failing probe the only
  substatus shown ends in \<^verbatim>\<open>( ? Mb )\<close>, and \<^verbatim>\<open>( ? )\<close> occurs nowhere in it.
\<close>

theorem probe_placeholder_counterexample:
  "get_content_length quiet_env (file_url request_iso) = Probe_raised OtherError
   \<and> shown_texts (trace (world_of (download quiet_env plain_downloader request_iso {}))
        @ thread_of (download quiet_env plain_downloader request_iso {}))
       = [''[wget] downloading f.iso ( ? Mb )'']
   \<and> \<not> occurs_in ''( ? )'' ''[wget] downloading f.iso ( ? Mb )''"
  by code_simp

subsection \<open>The stale file\<close>

text \<open>
  Claim C8, as the code has it. When an output path is given and a file exists there,
  \<^verbatim>\<open>os.remove\<close> is called on that path before any process is handed to \<^verbatim>\<open>handle_simple\<close>:
  it is the first thing the call does after logging and reading the clock. When
  \<^verbatim>\<open>os.remove\<close> returns, the file is deleted, and the path does not exist in the state the
  backend is chosen and launched in. When \<^verbatim>\<open>os.remove\<close> raises, no backend is launched at
  all: the only processes of the call are the cleanup \<^verbatim>\<open>rm -rf\<close> of that same path.
\<close>

theorem stale_file_removed_before_launch:
  assumes "output_path r = Some p" and "p \<noteq> []" and "p \<in> fs"
  shows "\<exists>rest. trace (world_of (download ev self r fs)) =
           [Log_info (Downloading (file_url r)), Time_time (start_time ev r fs),
            Log_info (Removing_old p), Os_remove p (os_remove ev p = None)] @ rest
      \<and> (os_remove ev p = None \<longrightarrow>
            p \<notin> files (snd (prepare_output ev r (initial_world ev r fs)))
            \<and> download_try ev self r (initial_world ev r fs)
                = launch ev self r (snd (prepare_output ev r (initial_world ev r fs))))
      \<and> (os_remove ev p \<noteq> None \<longrightarrow>
            (\<forall>pr. Handle_simple pr \<in> set rest \<longrightarrow> pr = rm_process p (root_password r)))"
proof -
  from assms have bs: "bool_str (output_path r)" and so: "str_or (output_path r) [] = p"
    by (simp_all add: bool_str_Some str_or_Some)
  from assms have inw: "p \<in> files (initial_world ev r fs)" by simp
  note prep = prepare_stale [OF bs so inw, of ev]
  from bs so have td: "to_delete r = p" by (simp add: to_delete_output)
  obtain oc w1 th where t: "download_try ev self r (initial_world ev r fs) = (oc, w1, th)"
    by (cases "download_try ev self r (initial_world ev r fs)") auto
  from download_after_try [OF t] obtain post where
    p: "trace (world_of (download ev self r fs)) = trace w1 @ post"
    and rmonly: "\<forall>pr. Handle_simple pr \<in> set post \<longrightarrow> pr = rm_process p (root_password r)"
    unfolding td by blast
  show ?thesis
  proof (cases "os_remove ev p")
    case None
    let ?w = "snd (prepare_output ev r (initial_world ev r fs))"
    from None prep have pw: "prepare_output ev r (initial_world ev r fs) = (None, ?w)"
      and tw: "trace ?w = [Log_info (Downloading (file_url r)), Time_time (start_time ev r fs),
            Log_info (Removing_old p), Os_remove p True, Log_info (Old_removed p)]"
      and fw: "p \<notin> files ?w"
      by simp_all
    have dt: "download_try ev self r (initial_world ev r fs) = launch ev self r ?w"
      unfolding download_try_def by (subst pw) simp
    from dt t have l: "launch ev self r ?w = (oc, w1, th)" by simp
    from launch_trace [of ev self r ?w] obtain p2 where
      "trace (fst (snd (launch ev self r ?w))) = trace ?w @ p2" ..
    then have "trace w1 = trace ?w @ p2" unfolding l by simp
    with p tw None fw dt show ?thesis by simp
  next
    case (Some e)
    with prep have "download_try ev self r (initial_world ev r fs) =
        (Raised e, emit (Os_remove p False)
                     (emit (Log_info (Removing_old p)) (initial_world ev r fs)), [])"
      by (simp add: download_try_def)
    with t have "trace w1 = [Log_info (Downloading (file_url r)),
            Time_time (start_time ev r fs), Log_info (Removing_old p), Os_remove p False]"
      by auto
    with p rmonly Some show ?thesis by simp
  qed
qed

theorem stale_file_removed_before_launch_witness:
  "output_path request_iso = Some ''/tmp/f.iso''
   \<and> ''/tmp/f.iso'' \<in> {''/tmp/f.iso''}
   \<and> os_remove quiet_env ''/tmp/f.iso'' = None
   \<and> take 4 (trace (world_of (download quiet_env plain_downloader request_iso {''/tmp/f.iso''})))
       = [Log_info (Downloading ''http://host/f.iso''),
          Time_time (start_time quiet_env request_iso {''/tmp/f.iso''}),
          Log_info (Removing_old ''/tmp/f.iso''), Os_remove ''/tmp/f.iso'' True]
   \<and> ''/tmp/f.iso'' \<notin> files (snd (prepare_output quiet_env request_iso
         (initial_world quiet_env request_iso {''/tmp/f.iso''})))"
proof -
  have h1: "output_path request_iso = Some ''/tmp/f.iso''" by code_simp
  have h2: "''/tmp/f.iso'' \<noteq> []" by simp
  have h3: "''/tmp/f.iso'' \<in> {''/tmp/f.iso''}" by simp
  have o: "os_remove quiet_env ''/tmp/f.iso'' = None" by (simp add: quiet_env_def)
  have u: "file_url request_iso = ''http://host/f.iso''" by code_simp
  from stale_file_removed_before_launch [OF h1 h2 h3, of quiet_env plain_downloader]
  obtain rest where
    "trace (world_of (download quiet_env plain_downloader request_iso {''/tmp/f.iso''})) =
       [Log_info (Downloading (file_url request_iso)),
        Time_time (start_time quiet_env request_iso {''/tmp/f.iso''}),
        Log_info (Removing_old ''/tmp/f.iso''),
        Os_remove ''/tmp/f.iso'' (os_remove quiet_env ''/tmp/f.iso'' = None)] @ rest"
    and "os_remove quiet_env ''/tmp/f.iso'' = None \<longrightarrow>
         ''/tmp/f.iso'' \<notin> files (snd (prepare_output quiet_env request_iso
            (initial_world quiet_env request_iso {''/tmp/f.iso''})))"
    by (elim exE conjE) auto
  with h1 h3 o u show ?thesis by simp
qed

text \<open>
  As worded, for every such request, the claim fails where \<^verbatim>\<open>os.remove\<close> raises: the
  handler of the bare \<^verbatim>\<open>except:\<close> hands \<^verbatim>\<open>rm -rf\<close> to \<^verbatim>\<open>handle_simple\<close> while the stale file
  is still there. Here \<^verbatim>\<open>rm\<close> cannot delete it either: an external process has been
  launched, the file was never deleted, and it still exists when the call returns.
\<close>

theorem stale_file_counterexample:
  "output_path request_iso = Some ''/tmp/f.iso''
   \<and> result_of (download env_remove_raises plain_downloader request_iso {''/tmp/f.iso''})
       = Inr False
   \<and> Handle_simple (rm_process ''/tmp/f.iso'' None)
       \<in> set (trace (world_of
                (download env_remove_raises plain_downloader request_iso {''/tmp/f.iso''})))
   \<and> Os_remove ''/tmp/f.iso'' True
       \<notin> set (trace (world_of
                (download env_remove_raises plain_downloader request_iso {''/tmp/f.iso''})))
   \<and> ''/tmp/f.iso''
       \<in> files (world_of
                (download env_remove_raises plain_downloader request_iso {''/tmp/f.iso''}))"
  by code_simp

end
